theory Spec2Isabelle
  imports Main "HOL-Library.Multiset"
begin

section \<open>Values of the parsed bookmark document\<close>

text \<open>
  \<^verbatim>\<open>writeFolderStructure(element: any, level = 0)\<close> receives what the XML parser
  returned: strings, arrays and objects. \<open>JUndefined\<close> is what reading a missing property
  yields, \<open>JNull\<close> is the other value on which a property read throws. An object is its list
  of own properties; a read takes the first entry of a key.
\<close>

datatype jsval =
    JUndefined
  | JNull
  | JStr string
  | JArr "jsval list"
  | JObj "(string \<times> jsval) list"

datatype js_error = TypeError

text \<open>The condition of \<^verbatim>\<open>element.title ? ... : ...\<close>: JavaScript's truthiness.\<close>

fun truthy :: "jsval \<Rightarrow> bool" where
  "truthy JUndefined = False"
| "truthy JNull = False"
| "truthy (JStr s) = (s \<noteq> [])"
| "truthy (JArr xs) = True"
| "truthy (JObj kvs) = True"

text \<open>\<^verbatim>\<open>typeof element === 'object'\<close> holds of objects, arrays and \<^verbatim>\<open>null\<close>.\<close>

fun typeof_object :: "jsval \<Rightarrow> bool" where
  "typeof_object JNull = True"
| "typeof_object (JArr xs) = True"
| "typeof_object (JObj kvs) = True"
| "typeof_object JUndefined = False"
| "typeof_object (JStr s) = False"

text \<open>
  A property read \<^verbatim>\<open>v.k\<close> or \<^verbatim>\<open>v[0]\<close> (key \<open>''0''\<close>), for the keys the program reads:
  \<^verbatim>\<open>folder\<close>, \<^verbatim>\<open>bookmark\<close>, \<^verbatim>\<open>title\<close>, \<^verbatim>\<open>$\<close>, \<^verbatim>\<open>href\<close> and index 0. None of them is
  inherited from a prototype. Reading from \<^verbatim>\<open>undefined\<close> or \<^verbatim>\<open>null\<close> throws a TypeError.
\<close>

fun js_get :: "jsval \<Rightarrow> string \<Rightarrow> js_error + jsval" where
  "js_get JUndefined k = Inl TypeError"
| "js_get JNull k = Inl TypeError"
| "js_get (JStr s) k =
     Inr (if k = ''0'' then (case s of [] \<Rightarrow> JUndefined | c # cs \<Rightarrow> JStr [c]) else JUndefined)"
| "js_get (JArr xs) k =
     Inr (if k = ''0'' then (case xs of [] \<Rightarrow> JUndefined | x # ys \<Rightarrow> x) else JUndefined)"
| "js_get (JObj kvs) k =
     Inr (case map_of kvs k of None \<Rightarrow> JUndefined | Some v \<Rightarrow> v)"

text \<open>
  The call \<^verbatim>\<open>element.hasOwnProperty(k)\<close>. On \<^verbatim>\<open>null\<close> the read of the method throws; an
  object with an own property named \<^verbatim>\<open>hasOwnProperty\<close> shadows the inherited method with a
  value that is not a function, and the call throws.
\<close>

fun js_hasOwnProperty :: "jsval \<Rightarrow> string \<Rightarrow> js_error + bool" where
  "js_hasOwnProperty JUndefined k = Inl TypeError"
| "js_hasOwnProperty JNull k = Inl TypeError"
| "js_hasOwnProperty (JStr s) k = Inr False"
| "js_hasOwnProperty (JArr xs) k = Inr False"
| "js_hasOwnProperty (JObj kvs) k =
     (if map_of kvs ''hasOwnProperty'' \<noteq> None then Inl TypeError
      else Inr (map_of kvs k \<noteq> None))"

text \<open>\<^verbatim>\<open>Array.prototype.join\<close> with the default separator.\<close>

fun joinComma :: "string list \<Rightarrow> string" where
  "joinComma [] = []"
| "joinComma [s] = s"
| "joinComma (s # t # ss) = s @ '','' @ joinComma (t # ss)"

fun firstError :: "('e + 'a) list \<Rightarrow> 'e + 'a list" where
  "firstError [] = Inr []"
| "firstError (Inl e # rs) = Inl e"
| "firstError (Inr x # rs) = (case firstError rs of Inl e \<Rightarrow> Inl e | Inr xs \<Rightarrow> Inr (x # xs))"

text \<open>
  The conversion to a string that \<^verbatim>\<open>+\<close> and a template literal apply to a value. An array
  joins its elements, with \<^verbatim>\<open>undefined\<close> and \<^verbatim>\<open>null\<close> as the empty string; an object is
  \<^verbatim>\<open>[object Object]\<close>, unless an own property \<^verbatim>\<open>toString\<close> shadows the inherited method
  with a value that is not a function: then the conversion throws.
\<close>

fun js_to_string :: "jsval \<Rightarrow> js_error + string" where
  "js_to_string JUndefined = Inr ''undefined''"
| "js_to_string JNull = Inr ''null''"
| "js_to_string (JStr s) = Inr s"
| "js_to_string (JArr xs) =
     (case firstError (map (\<lambda>x. case x of JUndefined \<Rightarrow> Inr [] | JNull \<Rightarrow> Inr []
                                     | JStr s \<Rightarrow> js_to_string x
                                     | JArr ys \<Rightarrow> js_to_string x
                                     | JObj kvs \<Rightarrow> js_to_string x) xs) of
        Inl e \<Rightarrow> Inl e
      | Inr ss \<Rightarrow> Inr (joinComma ss))"
| "js_to_string (JObj kvs) =
     (if map_of kvs ''toString'' \<noteq> None then Inl TypeError else Inr ''[object Object]'')"

section \<open>The Markdown converter\<close>

abbreviation NL :: string where
  "NL \<equiv> [CHR ''\<newline>'']"

text \<open>
  Lines 171 to 179: the heading of an element that has a \<^verbatim>\<open>folder\<close> or a \<^verbatim>\<open>bookmark\<close>
  property. \<^verbatim>\<open>||\<close> does not evaluate its right operand when the left one is true.
\<close>

definition folderHeading :: "jsval \<Rightarrow> nat \<Rightarrow> js_error + string" where
  "folderHeading element level =
     (case js_hasOwnProperty element ''folder'' of
        Inl e \<Rightarrow> Inl e
      | Inr hasFolder \<Rightarrow>
         (case (if hasFolder then Inr True else js_hasOwnProperty element ''bookmark'') of
            Inl e \<Rightarrow> Inl e
          | Inr False \<Rightarrow> Inr []
          | Inr True \<Rightarrow>
             (case js_get element ''title'' of
                Inl e \<Rightarrow> Inl e
              | Inr title \<Rightarrow>
                 (case (if truthy title then js_get title ''0'' else Inr (JStr ''Bookmarks'')) of
                    Inl e \<Rightarrow> Inl e
                  | Inr folderTitle \<Rightarrow>
                     (case js_to_string folderTitle of
                        Inl e \<Rightarrow> Inl e
                      | Inr t \<Rightarrow>
                          Inr ((if level \<noteq> 0 then NL else [])
                               @ replicate (level + 1) CHR ''#'' @ '' '' @ t @ NL))))))"

text \<open>Lines 184 to 187: the line of one bookmark, \<^verbatim>\<open>`[${title}](${link})` + '\n'\<close>.\<close>

definition bookmarkLine :: "jsval \<Rightarrow> js_error + string" where
  "bookmarkLine bookmark =
     (case js_get bookmark ''$'' of
        Inl e \<Rightarrow> Inl e
      | Inr attrs \<Rightarrow>
         (case js_get attrs ''href'' of
            Inl e \<Rightarrow> Inl e
          | Inr link \<Rightarrow>
             (case js_get bookmark ''title'' of
                Inl e \<Rightarrow> Inl e
              | Inr titles \<Rightarrow>
                 (case js_get titles ''0'' of
                    Inl e \<Rightarrow> Inl e
                  | Inr title \<Rightarrow>
                     (case js_to_string title of
                        Inl e \<Rightarrow> Inl e
                      | Inr t \<Rightarrow>
                         (case js_to_string link of
                            Inl e \<Rightarrow> Inl e
                          | Inr l \<Rightarrow> Inr (''['' @ t @ ''](''  @ l @ '')'' @ NL)))))))"

text \<open>
  \<^verbatim>\<open>data += <call>\<close> inside a \<^verbatim>\<open>forEach\<close>: once a call has thrown, the exception leaves the
  loop and nothing more is appended.
\<close>

definition appendResult :: "js_error + string \<Rightarrow> js_error + string \<Rightarrow> js_error + string" where
  "appendResult acc r =
     (case acc of
        Inl e \<Rightarrow> Inl e
      | Inr data \<Rightarrow> (case r of Inl e \<Rightarrow> Inl e | Inr s \<Rightarrow> Inr (data @ s)))"

text \<open>Lines 181 to 189: the lines of the bookmarks, when \<^verbatim>\<open>element.bookmark\<close> is an array.\<close>

definition writeBookmarks :: "jsval \<Rightarrow> string \<Rightarrow> js_error + string" where
  "writeBookmarks element data =
     (case js_get element ''bookmark'' of
        Inl e \<Rightarrow> Inl e
      | Inr (JArr bookmarks) \<Rightarrow>
          foldl (\<lambda>acc bookmark. appendResult acc (bookmarkLine bookmark)) (Inr data) bookmarks
      | Inr other \<Rightarrow> Inr data)"

text \<open>
  Lines 166 to 200: the heading, the bookmarks, then the sub-folders when
  \<^verbatim>\<open>element.folder\<close> is an array, each rendered one level deeper. What is not an object
  renders to the empty text.
\<close>

function writeFolderStructure :: "jsval \<Rightarrow> nat \<Rightarrow> js_error + string" where
  "writeFolderStructure element level =
     (if typeof_object element then
        (case folderHeading element level of
           Inl e \<Rightarrow> Inl e
         | Inr data1 \<Rightarrow>
            (case writeBookmarks element data1 of
               Inl e \<Rightarrow> Inl e
             | Inr data2 \<Rightarrow>
                (case js_get element ''folder'' of
                   Inl e \<Rightarrow> Inl e
                 | Inr (JArr subfolders) \<Rightarrow>
                     foldl (\<lambda>acc subfolder.
                              appendResult acc (writeFolderStructure subfolder (level + 1)))
                           (Inr data2) subfolders
                 | Inr other \<Rightarrow> Inr data2)))
      else Inr [])"
  by pat_completeness auto
termination
proof (relation "measure (\<lambda>(element, level). size element)")
  show "wf (measure (\<lambda>(element, level). size element))"
    by simp
next
  fix element :: jsval and level :: nat and data1 data2 :: string
    and got :: jsval and subfolders :: "jsval list" and acc :: "js_error + string"
    and subfolder :: jsval
  assume got: "js_get element ''folder'' = Inr got" "got = JArr subfolders"
    and mem: "subfolder \<in> set subfolders"
  have inner: "size subfolder < size (JArr subfolders)"
    using mem by (induction subfolders) auto
  have outer: "size v \<le> size_list (size_prod (\<lambda>x. 0) size) kvs"
    if "map_of kvs k = Some v" for kvs :: "(string \<times> jsval) list" and k v
    using that by (induction kvs) (auto split: if_splits)
  have "size (JArr subfolders) \<le> size element"
  proof (cases element)
    case (JObj kvs)
    with got have "map_of kvs ''folder'' = Some (JArr subfolders)"
      by (auto split: option.splits)
    from outer [OF this] JObj show ?thesis
      by simp
  qed (use got in \<open>auto split: if_splits list.splits\<close>)
  with inner show "((subfolder, level + 1), (element, level))
      \<in> measure (\<lambda>(element, level). size element)"
    by simp
qed

declare writeFolderStructure.simps [simp del]


section \<open>Bookmark trees\<close>

text \<open>
  The tree of a bookmark document: a folder with a title and its children in document order,
  or a link with a title and a target. \<open>toRaw\<close> is the value the XML parser hands to
  \<open>writeFolderStructure\<close> for such a tree: the children of an element are grouped by tag name,
  each group an array in document order, and a tag with no child leaves no property.
\<close>

datatype BookmarkNode =
    Folder string "BookmarkNode list"
  | Link string string

fun isLink :: "BookmarkNode \<Rightarrow> bool" where
  "isLink (Link title target) = True"
| "isLink (Folder title children) = False"

fun isFolder :: "BookmarkNode \<Rightarrow> bool" where
  "isFolder (Folder title children) = True"
| "isFolder (Link title target) = False"

fun toRaw :: "BookmarkNode \<Rightarrow> jsval" where
  "toRaw (Link title target) =
     JObj [(''$'', JObj [(''href'', JStr target)]), (''title'', JArr [JStr title])]"
| "toRaw (Folder title children) =
     JObj ([(''title'', JArr [JStr title])]
           @ (if filter isLink children = [] then []
              else [(''bookmark'', JArr (map toRaw (filter isLink children)))])
           @ (if filter isFolder children = [] then []
              else [(''folder'', JArr (map toRaw (filter isFolder children)))]))"

text \<open>The units of the output text: a blank separator, a heading line, a link line.\<close>

datatype emitted =
    Blank
  | Heading nat string
  | LinkLine string string

fun unitText :: "emitted \<Rightarrow> string" where
  "unitText Blank = NL"
| "unitText (Heading weight title) = replicate weight CHR ''#'' @ '' '' @ title @ NL"
| "unitText (LinkLine title target) = ''['' @ title @ ''](''  @ target @ '')'' @ NL"

fun isHeading :: "emitted \<Rightarrow> bool" where
  "isHeading (Heading weight title) = True"
| "isHeading Blank = False"
| "isHeading (LinkLine title target) = False"

fun isLinkLine :: "emitted \<Rightarrow> bool" where
  "isLinkLine (LinkLine title target) = True"
| "isLinkLine Blank = False"
| "isLinkLine (Heading weight title) = False"

definition headingUnits :: "nat \<Rightarrow> string \<Rightarrow> emitted list" where
  "headingUnits depth title = (if 0 < depth then [Blank] else []) @ [Heading (depth + 1) title]"

fun linkUnit :: "BookmarkNode \<Rightarrow> emitted list" where
  "linkUnit (Link title target) = [LinkLine title target]"
| "linkUnit (Folder title children) = []"

text \<open>
  The units in the order the converter emits them: the heading of a folder that has a child,
  the links of the folder, then its sub-folders.
\<close>

fun emittedUnits :: "BookmarkNode \<Rightarrow> nat \<Rightarrow> emitted list" where
  "emittedUnits (Link title target) depth = []"
| "emittedUnits (Folder title children) depth =
     (if children = [] then []
      else headingUnits depth title
           @ concat (map linkUnit (filter isLink children))
           @ concat (map (\<lambda>c. emittedUnits c (depth + 1)) (filter isFolder children)))"

text \<open>
  The units in document order: a pre-order walk that takes the children of a folder in the
  sequence in which the document has them, links and folders interleaved.
\<close>

fun documentUnits :: "BookmarkNode \<Rightarrow> nat \<Rightarrow> emitted list" where
  "documentUnits (Link title target) depth = [LinkLine title target]"
| "documentUnits (Folder title children) depth =
     (if children = [] then []
      else headingUnits depth title
           @ concat (map (\<lambda>c. documentUnits c (depth + 1)) children))"

fun folderCount :: "BookmarkNode \<Rightarrow> nat" where
  "folderCount (Link title target) = 0"
| "folderCount (Folder title children) =
     (if children = [] then 0 else 1) + sum_list (map folderCount children)"

fun linkCount :: "BookmarkNode \<Rightarrow> nat" where
  "linkCount (Link title target) = 1"
| "linkCount (Folder title children) = sum_list (map linkCount children)"

text \<open>No link comes after a folder among the children of any folder of the tree.\<close>

fun linksFirst :: "BookmarkNode \<Rightarrow> bool" where
  "linksFirst (Link title target) = True"
| "linksFirst (Folder title children) =
     (children = filter isLink children @ filter isFolder children
      \<and> list_all linksFirst children)"

section \<open>Parser output that the converter accepts\<close>







section \<open>The vault\<close>

text \<open>
  The file object of the vault: its path, its name without the extension, its extension,
  and \<^verbatim>\<open>stat.mtime\<close>.
\<close>

record TFile =
  path :: string
  basename :: string
  extension :: string
  mtime :: int

text \<open>The calls the program makes on the vault.\<close>

datatype vault_call =
    CreateFolder string
  | Rename TFile string
  | Trash TFile
  | Create string string

text \<open>
  What a call that succeeds does to the vault: make the output folder, make the backup
  folder, move the output file to a path in the backup folder, remove a file from the
  backup folder, write the output file.
\<close>

datatype change =
    MakeMdFolder
  | MakeBackupFolder
  | Move TFile string
  | Remove TFile
  | Write TFile

text \<open>
  When the change of a call that is not awaited reaches the vault: before the next
  statement of the program runs, while the run awaits the reading of the input (line 101),
  or after the run has ended.
\<close>

datatype landing = AtOnce | AtAwait | AfterRun

text \<open>
  The part of the vault a run looks at: whether there is a folder at \<^verbatim>\<open>mdFolderPath\<close>, the
  file at \<^verbatim>\<open>mdFilePath\<close>, and the children of the folder at \<^verbatim>\<open>backupFolderPath\<close>, in the
  order the vault keeps them (\<open>None\<close> when there is no such folder). The two folders are taken
  to be different folders. \<open>calls\<close> is the history of the calls the program has made;
  \<open>inFlight\<close> holds the changes of the calls that have not reached the vault yet.
\<close>

record vault =
  mdFolder :: bool
  mdFile :: "TFile option"
  backupFolder :: "TFile list option"
  calls :: "vault_call list"
  inFlight :: "(landing \<times> change) list"

text \<open>
  The changes, which are the vault's and not the program's. A move needs the backup folder,
  the file at the output path and a free destination path; the moved file keeps its
  \<^verbatim>\<open>stat.mtime\<close>, and its name fields, which the program does not read again, are left as
  they were. A write needs the output folder and a free output path. A change that cannot
  be made leaves the vault as it is.
\<close>

fun applyChange :: "change \<Rightarrow> vault \<Rightarrow> vault" where
  "applyChange MakeMdFolder v = v\<lparr>mdFolder := True\<rparr>"
| "applyChange MakeBackupFolder v =
     (case backupFolder v of
        None \<Rightarrow> v\<lparr>backupFolder := Some []\<rparr>
      | Some children \<Rightarrow> v)"
| "applyChange (Move file newPath) v =
     (case backupFolder v of
        None \<Rightarrow> v
      | Some children \<Rightarrow>
          if mdFile v \<noteq> Some file \<or> newPath \<in> set (map path children) then v
          else v\<lparr>mdFile := None,
                 backupFolder := Some (children @ [file\<lparr>path := newPath\<rparr>])\<rparr>)"
| "applyChange (Remove file) v =
     (case backupFolder v of
        None \<Rightarrow> v
      | Some children \<Rightarrow> v\<lparr>backupFolder := Some (remove1 file children)\<rparr>)"
| "applyChange (Write file) v =
     (if \<not> mdFolder v \<or> mdFile v \<noteq> None then v else v\<lparr>mdFile := Some file\<rparr>)"

text \<open>The changes in flight that are due at a point reach the vault, in the order of their calls.\<close>

definition land :: "landing \<Rightarrow> vault \<Rightarrow> vault" where
  "land due v =
     foldl (\<lambda>w ch. applyChange ch w)
       (v\<lparr>inFlight := filter (\<lambda>(at, ch). at \<noteq> due) (inFlight v)\<rparr>)
       (map snd (filter (\<lambda>(at, ch). at = due) (inFlight v)))"

section \<open>The run and what it takes from outside\<close>

text \<open>
  What a run takes from outside the program: which vault calls fail (an I/O error), when the
  change of a call that is not awaited reaches the vault, the clock (\<^verbatim>\<open>now.getTime()\<close>, in
  milliseconds since the epoch, and \<^verbatim>\<open>now.getTimezoneOffset()\<close>, the minutes from local time
  to UTC), the value \<^verbatim>\<open>result.xbel\<close> of the parsed input (\<open>None\<close> when reading or parsing
  throws), and the file object the vault makes for a created output.
\<close>

record run_env =
  fails :: "vault_call \<Rightarrow> bool"
  lands :: "vault_call \<Rightarrow> landing"
  nowTime :: int
  timezoneOffset :: int
  xbel :: "jsval option"
  created :: TFile

text \<open>
  A call the program does not await: it is in the history at once; its change, when the
  call does not fail, reaches the vault when the environment says.
\<close>

definition issue :: "run_env \<Rightarrow> vault_call \<Rightarrow> change \<Rightarrow> vault \<Rightarrow> vault" where
  "issue env c ch v =
     (let v1 = v\<lparr>calls := calls v @ [c]\<rparr> in
      if fails env c then v1
      else if lands env c = AtOnce then applyChange ch v1
      else v1\<lparr>inFlight := inFlight v1 @ [(lands env c, ch)]\<rparr>)"

text \<open>A call the program awaits: its change has reached the vault when the program goes on.\<close>

definition awaited :: "run_env \<Rightarrow> vault_call \<Rightarrow> change \<Rightarrow> vault \<Rightarrow> vault" where
  "awaited env c ch v =
     (let v1 = v\<lparr>calls := calls v @ [c]\<rparr> in
      if fails env c then v1 else applyChange ch v1)"

section \<open>The name of a backup\<close>

text \<open>
  The calendar date of a day number (days since 1 January 1970) in the proleptic Gregorian
  calendar, which is the calendar of \<^verbatim>\<open>Date\<close>: year, month from 1, day of the month.
\<close>

definition civilFromDays :: "int \<Rightarrow> int \<times> int \<times> int" where
  "civilFromDays days =
     (let z = days + 719468;
          era = z div 146097;
          doe = z mod 146097;
          yoe = (doe - doe div 1460 + doe div 36524 - doe div 146096) div 365;
          doy = doe - (365 * yoe + yoe div 4 - yoe div 100);
          mp = (5 * doy + 2) div 153;
          d = doy - (153 * mp + 2) div 5 + 1;
          m = (if mp < 10 then mp + 3 else mp - 9);
          y = yoe + era * 400 + (if m \<le> 2 then 1 else 0)
      in (y, m, d))"

definition yearOf :: "int \<Rightarrow> int" where
  "yearOf t = fst (civilFromDays (t div 86400000))"

definition monthOf :: "int \<Rightarrow> int" where
  "monthOf t = fst (snd (civilFromDays (t div 86400000)))"

definition dayOf :: "int \<Rightarrow> int" where
  "dayOf t = snd (snd (civilFromDays (t div 86400000)))"

definition hoursOf :: "int \<Rightarrow> int" where
  "hoursOf t = t mod 86400000 div 3600000"

definition minutesOf :: "int \<Rightarrow> int" where
  "minutesOf t = t mod 3600000 div 60000"

definition secondsOf :: "int \<Rightarrow> int" where
  "secondsOf t = t mod 60000 div 1000"

definition digit :: "nat \<Rightarrow> char" where
  "digit n = ''0123456789'' ! (n mod 10)"

text \<open>The last \<open>w\<close> decimal digits of a number, with leading zeros.\<close>

fun pad :: "nat \<Rightarrow> nat \<Rightarrow> string" where
  "pad 0 n = []"
| "pad (Suc w) n = pad w (n div 10) @ [digit n]"

text \<open>
  \<^verbatim>\<open>Date.prototype.toISOString\<close> of the instant \<open>t\<close>, in milliseconds since the epoch and
  in the range of \<^verbatim>\<open>Date\<close>: the
  text \<^verbatim>\<open>YYYY-MM-DDTHH:mm:ss.sssZ\<close> of the UTC fields of \<open>t\<close>, with a sign and six digits for
  a year outside 0 to 9999.
\<close>

definition toISOString :: "int \<Rightarrow> string" where
  "toISOString t =
     (if 0 \<le> yearOf t \<and> yearOf t \<le> 9999 then pad 4 (nat (yearOf t))
      else (if yearOf t < 0 then ''-'' else ''+'') @ pad 6 (nat \<bar>yearOf t\<bar>))
     @ ''-'' @ pad 2 (nat (monthOf t)) @ ''-'' @ pad 2 (nat (dayOf t)) @ ''T''
     @ pad 2 (nat (hoursOf t)) @ '':'' @ pad 2 (nat (minutesOf t)) @ '':''
     @ pad 2 (nat (secondsOf t)) @ ''.'' @ pad 3 (nat (t mod 1000)) @ ''Z''"

text \<open>
  Lines 118 to 120: \<^verbatim>\<open>localTime\<close> is the instant whose UTC fields are the fields of the
  local wall-clock time of \<^verbatim>\<open>now\<close>.
\<close>

definition localTime :: "run_env \<Rightarrow> int" where
  "localTime env =
     (let now = nowTime env;
          timeZoneOffset = timezoneOffset env * 60000
      in now - timeZoneOffset)"

text \<open>Line 121: \<^verbatim>\<open>localTime.toISOString().slice(0, 19).replace(/[-T:]/g, '')\<close>\<close>

definition dateSuffix :: "run_env \<Rightarrow> string" where
  "dateSuffix env =
     filter (\<lambda>c. c \<noteq> CHR ''-'' \<and> c \<noteq> CHR ''T'' \<and> c \<noteq> CHR '':'')
       (take 19 (toISOString (localTime env)))"

text \<open>
  \<^verbatim>\<open>parse(p).name\<close> of the \<^verbatim>\<open>path\<close> module (POSIX flavour), which is not part of the
  program: the scan of \<^verbatim>\<open>p\<close> from its last character down to \<^verbatim>\<open>start\<close>, which finds the
  last path segment and the last dot in it, and the choice of the name after the scan.
\<close>

record parse_state =
  startDot :: int
  startPart :: nat
  endPart :: int
  matchedSlash :: bool
  preDotState :: int

definition parseInit :: parse_state where
  "parseInit = \<lparr>startDot = - 1, startPart = 0, endPart = - 1, matchedSlash = True,
                preDotState = 0\<rparr>"

fun parseScan :: "string \<Rightarrow> nat \<Rightarrow> nat \<Rightarrow> parse_state \<Rightarrow> parse_state" where
  "parseScan p start 0 st = st"
| "parseScan p start (Suc n) st =
     (let i = start + n; code = p ! i in
      if code = CHR ''/'' then
        (if \<not> matchedSlash st then st\<lparr>startPart := i + 1\<rparr>
         else parseScan p start n st)
      else
        (let st1 = (if endPart st = - 1 then st\<lparr>matchedSlash := False, endPart := int i + 1\<rparr>
                    else st);
             st2 = (if code = CHR ''.'' then
                      (if startDot st1 = - 1 then st1\<lparr>startDot := int i\<rparr>
                       else if preDotState st1 \<noteq> 1 then st1\<lparr>preDotState := 1\<rparr>
                       else st1)
                    else if startDot st1 \<noteq> - 1 then st1\<lparr>preDotState := - 1\<rparr>
                    else st1)
         in parseScan p start n st2))"

definition slice :: "string \<Rightarrow> int \<Rightarrow> int \<Rightarrow> string" where
  "slice s a b = take (nat b - nat a) (drop (nat a) s)"

definition parseName :: "string \<Rightarrow> string" where
  "parseName p =
     (if p = [] then []
      else
        (let isAbsolute = (p ! 0 = CHR ''/'');
             start = (if isAbsolute then 1 else 0);
             st = parseScan p start (length p - start) parseInit
         in if endPart st \<noteq> - 1 then
              (let nameStart = (if startPart st = 0 \<and> isAbsolute then 1 else int (startPart st)) in
               if startDot st = - 1 \<or> preDotState st = 0
                  \<or> (preDotState st = 1 \<and> startDot st = endPart st - 1
                      \<and> startDot st = int (startPart st) + 1)
               then slice p nameStart (endPart st)
               else slice p nameStart (startDot st))
            else []))"

text \<open>Line 132: \<^verbatim>\<open>`${parse(fileName).name}-${dateSuffix}.${fileExtension}`\<close>\<close>

definition backupFileName :: "run_env \<Rightarrow> TFile \<Rightarrow> string" where
  "backupFileName env file =
     parseName (basename file) @ ''-'' @ dateSuffix env @ ''.'' @ extension file"

section \<open>Backup rotation and the run\<close>

text \<open>
  Lines 116 to 138. The backup folder is looked up when the function runs; the folder is
  made when the lookup finds none; the move is called, and not awaited.
\<close>

definition backupExistingFile :: "run_env \<Rightarrow> TFile \<Rightarrow> string \<Rightarrow> vault \<Rightarrow> vault" where
  "backupExistingFile env file backupFolderPath v =
     (let v1 = (if backupFolder v = None
                then issue env (CreateFolder backupFolderPath) MakeBackupFolder v
                else v);
          backupFilePath = backupFolderPath @ ''/'' @ backupFileName env file
      in issue env (Rename file backupFilePath) (Move file backupFilePath) v1)"

text \<open>
  Lines 140 to 164. The children are those the vault has when the function runs. \<^verbatim>\<open>sort\<close>
  sorts the array of children in place and is stable; the comparison is by \<^verbatim>\<open>stat.mtime\<close>.
  \<^verbatim>\<open>slice(0, filesToDelete)\<close> takes what there is when the array is shorter. The children
  are files, as the cast to \<^verbatim>\<open>TFile[]\<close> says. \<^verbatim>\<open>trash\<close> is called for each file, and not
  awaited.
\<close>

definition deleteOldBackups :: "run_env \<Rightarrow> string \<Rightarrow> int \<Rightarrow> vault \<Rightarrow> vault" where
  "deleteOldBackups env backupFolderPath keepCount v =
     (case backupFolder v of
        None \<Rightarrow> v
      | Some children \<Rightarrow>
         (let backupFiles = sort_key mtime children;
              v1 = v\<lparr>backupFolder := Some backupFiles\<rparr>;
              filesToDelete = int (length backupFiles) - keepCount + 1
          in if filesToDelete > 0
             then foldl (\<lambda>w file. issue env (Trash file) (Remove file) w) v1
                        (take (nat filesToDelete) backupFiles)
             else v1))"

text \<open>The files that lines 157 to 159 pick from the children of the backup folder.\<close>

definition filesToDeleteList :: "int \<Rightarrow> TFile list \<Rightarrow> TFile list" where
  "filesToDeleteList keepCount children =
     (let backupFiles = sort_key mtime children;
          filesToDelete = int (length backupFiles) - keepCount + 1
      in if filesToDelete > 0 then take (nat filesToDelete) backupFiles else [])"

text \<open>The children of the backup folder, none when there is no folder.\<close>

definition backups :: "vault \<Rightarrow> TFile list" where
  "backups v = (case backupFolder v of None \<Rightarrow> [] | Some children \<Rightarrow> children)"

record fbmPluginSettings =
  xbelFolderPath :: string
  xbelFileName :: string
  mdFolderPath :: string
  mdFileName :: string
  backupFolderPath :: string
  keepCount :: int
  automaticUpdate :: bool
  updateInterval :: int

text \<open>
  Lines 69 to 114. \<^verbatim>\<open>mdFile\<close> is looked up before the output folder is made. The calls of
  lines 88, 93 and 97 are not awaited: the changes due while the run awaits land at line
  101. Whatever is thrown inside \<^verbatim>\<open>try\<close> is logged and the run ends there. \<^verbatim>\<open>create\<close> is
  awaited. The run has ended when the changes still in flight have landed.
\<close>

definition processXBELFileData :: "fbmPluginSettings \<Rightarrow> run_env \<Rightarrow> vault \<Rightarrow> vault" where
  "processXBELFileData settings env v =
     (let mdFilePath = mdFolderPath settings @ ''/'' @ mdFileName settings;
          file = mdFile v;
          v1 = (if \<not> mdFolder v
                then issue env (CreateFolder (mdFolderPath settings)) MakeMdFolder v
                else v);
          v2 = (case file of
                  Some f \<Rightarrow> backupExistingFile env f (backupFolderPath settings) v1
                | None \<Rightarrow> v1);
          v3 = deleteOldBackups env (backupFolderPath settings) (keepCount settings) v2;
          v4 = land AtAwait v3;
          v5 = (case xbel env of
                  None \<Rightarrow> v4
                | Some element \<Rightarrow>
                   (case writeFolderStructure element 0 of
                      Inl e \<Rightarrow> v4
                    | Inr mdData \<Rightarrow>
                        awaited env (Create mdFilePath mdData) (Write (created env)) v4))
      in land AfterRun v5)"








section \<open>Example inputs\<close>

definition exampleFile :: TFile where
  "exampleFile = \<lparr>path = ''out/bookmarks.md'', basename = ''bookmarks'', extension = ''md'',
                    mtime = 100\<rparr>"

definition exampleSettings :: fbmPluginSettings where
  "exampleSettings = \<lparr>xbelFolderPath = ''/in'', xbelFileName = ''bookmarks.xbel'',
                        mdFolderPath = ''out'', mdFileName = ''bookmarks.md'',
                        backupFolderPath = ''bak'', keepCount = 3, automaticUpdate = False,
                        updateInterval = 900\<rparr>"

definition exampleVault :: vault where
  "exampleVault = \<lparr>mdFolder = True, mdFile = Some exampleFile, backupFolder = None,
                     calls = [], inFlight = []\<rparr>"

text \<open>
  A run at 02:04:05.678 UTC on 2 January 2024, one hour east of UTC, in which no call fails
  and every change reaches the vault while the run awaits the input.
\<close>

definition exampleEnv :: run_env where
  "exampleEnv = \<lparr>fails = (\<lambda>c. False), lands = (\<lambda>c. AtAwait),
                   nowTime = 1704161045678, timezoneOffset = - 60,
                   xbel = Some (toRaw (Folder ''B'' [Link ''a'' ''u''])),
                   created = exampleFile\<lparr>mtime := 200\<rparr>\<rparr>"






text \<open>The output file \<^verbatim>\<open>out/my.bookmarks.md\<close>, as the vault describes it.\<close>

definition dottedFile :: TFile where
  "dottedFile = \<lparr>path = ''out/my.bookmarks.md'', basename = ''my.bookmarks'',
                   extension = ''md'', mtime = 100\<rparr>"



section \<open>The converter on bookmark trees\<close>



lemma foldl_appendResult_Inl:
  "foldl (\<lambda>acc x. appendResult acc (f x)) (Inl e) xs = Inl e"
  by (induction xs) (simp_all add: appendResult_def)

lemma foldl_appendResult:
  "(\<And>x. x \<in> set xs \<Longrightarrow> f x = Inr (g x)) \<Longrightarrow>
   foldl (\<lambda>acc x. appendResult acc (f x)) (Inr data) xs = Inr (data @ concat (map g xs))"
  by (induction xs arbitrary: data) (simp_all add: appendResult_def)

lemma bookmarkLine_toRaw:
  "bookmarkLine (toRaw (Link title target)) = Inr (unitText (LinkLine title target))"
  by (simp add: bookmarkLine_def)

lemma writeBookmarks_links:
  "foldl (\<lambda>acc b. appendResult acc (bookmarkLine b)) (Inr data) (map toRaw (filter isLink cs))
   = Inr (data @ concat (map unitText (concat (map linkUnit (filter isLink cs)))))"
proof (induction cs arbitrary: data)
  case Nil
  show ?case by simp
next
  case (Cons c cs)
  show ?case
  proof (cases c)
    case (Folder t ds)
    with Cons show ?thesis by simp
  next
    case (Link t u)
    with Cons show ?thesis
      by (simp add: appendResult_def bookmarkLine_toRaw del: toRaw.simps unitText.simps)
  qed
qed

lemma folderHeading_toRaw_Folder:
  "folderHeading (toRaw (Folder t cs)) d =
     Inr (if cs = [] then [] else concat (map unitText (headingUnits d t)))"
proof (cases "cs = []")
  case True
  then show ?thesis by (simp add: folderHeading_def)
next
  case False
  then have "filter isLink cs \<noteq> [] \<or> filter isFolder cs \<noteq> []"
    by (cases cs; cases "hd cs") auto
  then show ?thesis using False
    by (auto simp add: folderHeading_def headingUnits_def)
qed

lemma concat_map_concat_map:
  "concat (map f (concat (map g xs))) = concat (map (\<lambda>x. concat (map f (g x))) xs)"
  by (induction xs) simp_all

lemma writeFolderStructure_toRaw:
  "writeFolderStructure (toRaw T) d = Inr (concat (map unitText (emittedUnits T d)))"
proof (induction T arbitrary: d)
  case (Link t u)
  show ?case
    by (subst writeFolderStructure.simps) (simp add: folderHeading_def writeBookmarks_def)
next
  case (Folder t cs)
  have subs: "foldl (\<lambda>acc s. appendResult acc (writeFolderStructure s (d + 1))) (Inr data)
                (map toRaw (filter isFolder cs))
              = Inr (data @ concat (map (\<lambda>c. concat (map unitText (emittedUnits c (d + 1))))
                                        (filter isFolder cs)))" for data
  proof -
    have "foldl (\<lambda>acc c. appendResult acc (writeFolderStructure (toRaw c) (d + 1))) (Inr data)
            (filter isFolder cs)
          = Inr (data @ concat (map (\<lambda>c. concat (map unitText (emittedUnits c (d + 1))))
                                        (filter isFolder cs)))"
      by (rule foldl_appendResult) (simp add: Folder.IH)
    then show ?thesis by (simp add: foldl_map)
  qed
  have wb: "writeBookmarks (toRaw (Folder t cs)) data
             = Inr (data @ concat (map unitText (concat (map linkUnit (filter isLink cs)))))" for data
    by (simp add: writeBookmarks_def writeBookmarks_links)
  have gf: "js_get (toRaw (Folder t cs)) ''folder''
             = Inr (if filter isFolder cs = [] then JUndefined
                    else JArr (map toRaw (filter isFolder cs)))"
    by simp
  have ty: "typeof_object (toRaw (Folder t cs))"
    by simp
  show ?case
  proof (cases "cs = []")
    case True
    then show ?thesis
      by (subst writeFolderStructure.simps) (simp add: folderHeading_def writeBookmarks_def)
  next
    case False
    have "writeFolderStructure (toRaw (Folder t cs)) d
          = Inr (concat (map unitText (headingUnits d t))
                 @ concat (map unitText (concat (map linkUnit (filter isLink cs))))
                 @ concat (map (\<lambda>c. concat (map unitText (emittedUnits c (d + 1))))
                               (filter isFolder cs)))"
      apply (subst writeFolderStructure.simps)
      apply (simp only: ty folderHeading_toRaw_Folder wb gf subs False if_True if_False
            sum.case jsval.case append_assoc split: if_split)
      apply simp
      done
    then show ?thesis
      using False by (simp add: concat_map_concat_map)
  qed
qed



lemma concat_linkUnit_filter:
  "concat (map linkUnit (filter isLink cs)) = concat (map linkUnit cs)"
proof (induction cs)
  case (Cons c cs)
  then show ?case by (cases c) simp_all
qed simp

lemma concat_emittedUnits_filter:
  "concat (map (\<lambda>c. emittedUnits c k) (filter isFolder cs)) = concat (map (\<lambda>c. emittedUnits c k) cs)"
proof (induction cs)
  case (Cons c cs)
  then show ?case by (cases c) simp_all
qed simp

lemma emittedUnits_Folder:
  "emittedUnits (Folder t cs) d =
     (if cs = [] then []
      else headingUnits d t @ concat (map linkUnit cs)
           @ concat (map (\<lambda>c. emittedUnits c (d + 1)) cs))"
  by (simp add: concat_linkUnit_filter concat_emittedUnits_filter)

lemma filter_linkUnit [simp]:
  "filter isHeading (linkUnit c) = []" "filter isLinkLine (linkUnit c) = linkUnit c"
  by (cases c; simp)+

lemma filter_headingUnits [simp]:
  "filter isLinkLine (headingUnits d t) = []"
  "length (filter isHeading (headingUnits d t)) = 1"
  by (simp_all add: headingUnits_def)

lemma headings_document:
  "filter isHeading (documentUnits T d) = filter isHeading (emittedUnits T d)"
proof (induction T arbitrary: d)
  case (Folder t cs)
  have "concat (map (\<lambda>c. filter isHeading (documentUnits c (d + 1))) cs)
        = concat (map (\<lambda>c. filter isHeading (emittedUnits c (d + 1))) cs)"
    using Folder.IH by (induction cs) simp_all
  then show ?case
    by (simp add: emittedUnits_Folder filter_concat comp_def del: emittedUnits.simps)
qed simp

lemma mset_document:
  "mset (documentUnits T d) = mset (linkUnit T) + mset (emittedUnits T d)"
proof (induction T arbitrary: d)
  case (Folder t cs)
  have "mset (concat (map (\<lambda>c. documentUnits c (d + 1)) cs))
        = mset (concat (map linkUnit cs)) + mset (concat (map (\<lambda>c. emittedUnits c (d + 1)) cs))"
    using Folder.IH by (induction cs) simp_all
  then show ?case
    by (simp add: emittedUnits_Folder del: emittedUnits.simps)
qed simp

lemma heading_count:
  "length (filter isHeading (emittedUnits T d)) = folderCount T"
proof (induction T arbitrary: d)
  case (Folder t cs)
  have "length (concat (map (\<lambda>c. filter isHeading (emittedUnits c (d + 1))) cs))
        = sum_list (map folderCount cs)"
    using Folder.IH by (induction cs) simp_all
  then show ?case
    by (simp add: emittedUnits_Folder filter_concat comp_def del: emittedUnits.simps)
qed simp

lemma link_count:
  "length (linkUnit T) + length (filter isLinkLine (emittedUnits T d)) = linkCount T"
proof (induction T arbitrary: d)
  case (Folder t cs)
  have "length (concat (map linkUnit cs))
        + length (concat (map (\<lambda>c. filter isLinkLine (emittedUnits c (d + 1))) cs))
        = sum_list (map linkCount cs)"
    using Folder.IH
  proof (induction cs)
    case (Cons c cs)
    have "length (linkUnit c) + length (filter isLinkLine (emittedUnits c (d + 1))) = linkCount c"
      using Cons.prems by simp
    moreover have "length (concat (map linkUnit cs))
        + length (concat (map (\<lambda>c. filter isLinkLine (emittedUnits c (d + 1))) cs))
        = sum_list (map linkCount cs)"
      using Cons by simp
    ultimately show ?case by simp
  qed simp
  then show ?case
    by (simp add: emittedUnits_Folder filter_concat comp_def del: emittedUnits.simps)
qed simp

lemma linksFirst_document:
  "linksFirst T \<Longrightarrow> documentUnits T d = linkUnit T @ emittedUnits T d"
proof (induction T arbitrary: d)
  case (Folder t cs)
  define ls where "ls = filter isLink cs"
  define fs where "fs = filter isFolder cs"
  from Folder.prems have cs: "cs = ls @ fs" and all: "\<forall>c \<in> set cs. linksFirst c"
    by (simp_all add: ls_def fs_def list_all_iff)
  have ih: "documentUnits c (d + 1) = linkUnit c @ emittedUnits c (d + 1)" if "c \<in> set cs" for c
    using Folder.IH that all by blast
  have l: "concat (map (\<lambda>c. documentUnits c (d + 1)) ls) = concat (map linkUnit ls)"
  proof -
    have "\<forall>c \<in> set ls. documentUnits c (d + 1) = linkUnit c"
    proof
      fix c assume c: "c \<in> set ls"
      then have "isLink c" "c \<in> set cs" by (simp_all add: ls_def)
      then show "documentUnits c (d + 1) = linkUnit c"
        using ih [of c] by (cases c) simp_all
    qed
    then show ?thesis by (induction ls) simp_all
  qed
  have f: "concat (map (\<lambda>c. documentUnits c (d + 1)) fs)
           = concat (map (\<lambda>c. emittedUnits c (d + 1)) fs)"
  proof -
    have "\<forall>c \<in> set fs. documentUnits c (d + 1) = emittedUnits c (d + 1)"
    proof
      fix c assume c: "c \<in> set fs"
      then have "isFolder c" "c \<in> set cs" by (simp_all add: fs_def)
      then show "documentUnits c (d + 1) = emittedUnits c (d + 1)"
        using ih [of c] by (cases c) simp_all
    qed
    then show ?thesis by (induction fs) simp_all
  qed
  have split: "concat (map (\<lambda>c. documentUnits c (d + 1)) cs)
        = concat (map (\<lambda>c. documentUnits c (d + 1)) ls)
          @ concat (map (\<lambda>c. documentUnits c (d + 1)) fs)"
    by (subst cs) simp
  have "documentUnits (Folder t cs) d
        = (if cs = [] then [] else headingUnits d t
             @ concat (map (\<lambda>c. documentUnits c (d + 1)) ls)
             @ concat (map (\<lambda>c. documentUnits c (d + 1)) fs))"
    using split by simp
  also have "\<dots> = emittedUnits (Folder t cs) d"
    using l f by (simp add: ls_def fs_def)
  finally show ?case by simp
qed simp

text \<open>
  Claim C8. The tree \<open>Folder "Bookmarks" [Link "Example" "https://example.com",
  Folder "Sub" [Link "Nested" "https://nested.example"]]\<close> renders to the five lines
  \<^verbatim>\<open># Bookmarks\<close>, \<^verbatim>\<open>[Example](https://example.com)\<close>, a blank line, \<^verbatim>\<open>## Sub\<close> and
  \<^verbatim>\<open>[Nested](https://nested.example)\<close>, each ended by a newline.
\<close>

theorem render_example:
  "writeFolderStructure
     (toRaw (Folder ''Bookmarks''
               [Link ''Example'' ''https://example.com'',
                Folder ''Sub'' [Link ''Nested'' ''https://nested.example'']])) 0
   = Inr ''# Bookmarks\<newline>[Example](https://example.com)\<newline>\<newline>## Sub\<newline>[Nested](https://nested.example)\<newline>''"
  by code_simp

text \<open>
  Claim C5, as stated: the output is the heading and link lines of the tree in document
  order. It fails for a folder \<open>R\<close> whose first child is the folder \<open>A\<close> and whose second
  child is the link \<open>x\<close>: the converter writes the line of \<open>x\<close> before the section of \<open>A\<close>.
\<close>

theorem render_document_order_counterexample:
  "writeFolderStructure (toRaw (Folder ''R'' [Folder ''A'' [Link ''a'' ''u''], Link ''x'' ''v''])) 0
   \<noteq> Inr (concat (map unitText
            (documentUnits (Folder ''R'' [Folder ''A'' [Link ''a'' ''u''], Link ''x'' ''v'']) 0)))"
  by code_simp

text \<open>
  Claim C5, amended. For every tree whose root is a folder, the output is the text of the
  emitted units: per folder that has a child its heading, then the lines of its links in
  their order, then its sub-folders in their order. There is one heading per folder that has
  a child and one link line per link; the headings come in document order; the units are
  those of the document-order walk, and in the same order when no link follows a folder
  among the children of any folder.
\<close>

theorem render_units_of_tree:
  "writeFolderStructure (toRaw (Folder t cs)) 0
     = Inr (concat (map unitText (emittedUnits (Folder t cs) 0)))
   \<and> length (filter isHeading (emittedUnits (Folder t cs) 0)) = folderCount (Folder t cs)
   \<and> length (filter isLinkLine (emittedUnits (Folder t cs) 0)) = linkCount (Folder t cs)
   \<and> filter isHeading (emittedUnits (Folder t cs) 0)
       = filter isHeading (documentUnits (Folder t cs) 0)
   \<and> mset (emittedUnits (Folder t cs) 0) = mset (documentUnits (Folder t cs) 0)
   \<and> (linksFirst (Folder t cs)
        \<longrightarrow> emittedUnits (Folder t cs) 0 = documentUnits (Folder t cs) 0)"
  using writeFolderStructure_toRaw [of "Folder t cs" 0] heading_count [of "Folder t cs" 0]
    link_count [of "Folder t cs" 0] headings_document [of "Folder t cs" 0]
    mset_document [of "Folder t cs" 0] linksFirst_document [of "Folder t cs" 0]
  by (simp del: emittedUnits.simps documentUnits.simps linksFirst.simps folderCount.simps
        linkCount.simps toRaw.simps)

theorem render_units_of_tree_witness:
  "linksFirst (Folder ''B'' [Link ''a'' ''u'', Folder ''S'' [Link ''n'' ''v'']])
   \<and> emittedUnits (Folder ''B'' [Link ''a'' ''u'', Folder ''S'' [Link ''n'' ''v'']]) 0
       = documentUnits (Folder ''B'' [Link ''a'' ''u'', Folder ''S'' [Link ''n'' ''v'']]) 0
   \<and> writeFolderStructure
         (toRaw (Folder ''B'' [Link ''a'' ''u'', Folder ''S'' [Link ''n'' ''v'']])) 0
       = Inr (concat (map unitText
           (emittedUnits (Folder ''B'' [Link ''a'' ''u'', Folder ''S'' [Link ''n'' ''v'']]) 0)))"
proof -
  have h: "linksFirst (Folder ''B'' [Link ''a'' ''u'', Folder ''S'' [Link ''n'' ''v'']])"
    by simp
  show ?thesis
    using h render_units_of_tree [of "''B''" "[Link ''a'' ''u'', Folder ''S'' [Link ''n'' ''v'']]"]
    by blast
qed

section \<open>The converter on parser output\<close>


lemma appendResult_simps:
  "appendResult (Inl e) r = Inl e"
  "appendResult (Inr d) (Inl e) = Inl e"
  "appendResult (Inr d) (Inr s) = Inr (d @ s)"
  by (simp_all add: appendResult_def)





lemma writeFolderStructure_cases:
  assumes "writeFolderStructure element level = Inr out"
  shows "(\<not> typeof_object element \<and> out = [])
       \<or> (typeof_object element \<and> (\<exists>data1 data2 got.
            folderHeading element level = Inr data1
          \<and> writeBookmarks element data1 = Inr data2
          \<and> js_get element ''folder'' = Inr got
          \<and> (case got of
                JArr subfolders \<Rightarrow>
                  foldl (\<lambda>acc subfolder. appendResult acc (writeFolderStructure subfolder (level + 1)))
                        (Inr data2) subfolders = Inr out
              | JUndefined \<Rightarrow> out = data2 | JNull \<Rightarrow> out = data2
              | JStr s \<Rightarrow> out = data2 | JObj kvs \<Rightarrow> out = data2)))"
  using assms
  by (subst (asm) writeFolderStructure.simps) (auto split: if_splits sum.splits jsval.splits)





















lemma foldl_appendResult_prefix:
  "foldl (\<lambda>acc x. appendResult acc (f x)) (Inr data) xs = Inr out \<Longrightarrow> \<exists>rest. out = data @ rest"
proof (induction xs arbitrary: data)
  case Nil
  then show ?case by simp
next
  case (Cons x xs)
  show ?case
  proof (cases "f x")
    case (Inl e)
    with Cons.prems show ?thesis
      by (simp add: appendResult_simps foldl_appendResult_Inl)
  next
    case (Inr s)
    with Cons.prems
    have "foldl (\<lambda>acc x. appendResult acc (f x)) (Inr (data @ s)) xs = Inr out"
      by (simp add: appendResult_simps)
    from Cons.IH [OF this] show ?thesis by auto
  qed
qed

lemma writeBookmarks_prefix:
  "writeBookmarks element data = Inr out \<Longrightarrow> \<exists>rest. out = data @ rest"
  unfolding writeBookmarks_def
  by (auto split: sum.splits jsval.splits dest: foldl_appendResult_prefix)

lemma writeFolderStructure_heading_prefix:
  assumes "writeFolderStructure element level = Inr out" "typeof_object element"
  shows "\<exists>h rest. folderHeading element level = Inr h \<and> out = h @ rest"
proof -
  from writeFolderStructure_cases [OF assms(1)] assms(2)
  obtain data1 data2 got where h: "folderHeading element level = Inr data1"
    and wb: "writeBookmarks element data1 = Inr data2"
    and rest: "(case got of
                JArr subfolders \<Rightarrow>
                  foldl (\<lambda>acc subfolder. appendResult acc (writeFolderStructure subfolder (level + 1)))
                        (Inr data2) subfolders = Inr out
              | JUndefined \<Rightarrow> out = data2 | JNull \<Rightarrow> out = data2
              | JStr s \<Rightarrow> out = data2 | JObj kvs \<Rightarrow> out = data2)"
    by blast
  from writeBookmarks_prefix [OF wb] obtain r1 where r1: "data2 = data1 @ r1" by blast
  have "\<exists>r2. out = data2 @ r2"
    using rest by (cases got) (auto dest: foldl_appendResult_prefix)
  with r1 h show ?thesis by auto
qed

text \<open>
  Claim C2, as stated: an untitled folder below the root renders a heading with empty
  title text. It fails: an untitled folder rendered at depth 1 gets the heading
  \<^verbatim>\<open>## Bookmarks\<close>, not \<^verbatim>\<open>## \<close>.
\<close>

theorem untitled_nested_folder_counterexample:
  "writeFolderStructure (JObj [(''bookmark'', JArr [toRaw (Link ''a'' ''u'')])]) 1
     = Inr ''\<newline>## Bookmarks\<newline>[a](u)\<newline>''
   \<and> writeFolderStructure (JObj [(''bookmark'', JArr [toRaw (Link ''a'' ''u'')])]) 1
     \<noteq> Inr ''\<newline>## \<newline>[a](u)\<newline>''"
  by code_simp

text \<open>
  Claim C2, amended. For every folder element that has no title, at every depth, the
  heading text is the placeholder \<^verbatim>\<open>Bookmarks\<close>: the text of the converter starts with the
  blank line when the depth is not 0, the heading marker, a space, \<^verbatim>\<open>Bookmarks\<close> and a
  newline.
\<close>

theorem untitled_folder_heading:
  assumes "map_of kvs ''hasOwnProperty'' = None"
    and "map_of kvs ''title'' = None"
    and "map_of kvs ''folder'' \<noteq> None \<or> map_of kvs ''bookmark'' \<noteq> None"
    and "writeFolderStructure (JObj kvs) level = Inr out"
  shows "\<exists>rest. out = (if level \<noteq> 0 then NL else []) @ replicate (level + 1) CHR ''#''
                       @ '' Bookmarks'' @ NL @ rest"
proof -
  have "folderHeading (JObj kvs) level
        = Inr ((if level \<noteq> 0 then NL else []) @ replicate (level + 1) CHR ''#''
               @ '' Bookmarks'' @ NL)"
    using assms(1-3) by (auto simp: folderHeading_def)
  with writeFolderStructure_heading_prefix [OF assms(4)] show ?thesis
    by auto
qed

theorem untitled_folder_heading_witness:
  "map_of [(''bookmark'', JArr [toRaw (Link ''a'' ''u'')])] ''hasOwnProperty'' = None
   \<and> map_of [(''bookmark'', JArr [toRaw (Link ''a'' ''u'')])] ''title'' = None
   \<and> map_of [(''bookmark'', JArr [toRaw (Link ''a'' ''u'')])] ''bookmark'' \<noteq> None
   \<and> writeFolderStructure (JObj [(''bookmark'', JArr [toRaw (Link ''a'' ''u'')])]) 2
       = Inr ''\<newline>### Bookmarks\<newline>[a](u)\<newline>''
   \<and> (\<exists>rest. ''\<newline>### Bookmarks\<newline>[a](u)\<newline>''
         = NL @ replicate 3 CHR ''#'' @ '' Bookmarks'' @ NL @ rest)"
proof -
  have h1: "map_of [(''bookmark'', JArr [toRaw (Link ''a'' ''u'')])] ''hasOwnProperty'' = None"
    by simp
  have h2: "map_of [(''bookmark'', JArr [toRaw (Link ''a'' ''u'')])] ''title'' = None"
    by simp
  have h3: "map_of [(''bookmark'', JArr [toRaw (Link ''a'' ''u'')])] ''folder'' \<noteq> None
            \<or> map_of [(''bookmark'', JArr [toRaw (Link ''a'' ''u'')])] ''bookmark'' \<noteq> None"
    by simp
  have h4: "writeFolderStructure (JObj [(''bookmark'', JArr [toRaw (Link ''a'' ''u'')])]) 2
            = Inr ''\<newline>### Bookmarks\<newline>[a](u)\<newline>''"
    by code_simp
  show ?thesis
    using h1 h2 h3 h4 untitled_folder_heading [OF h1 h2 h3 h4]
    by (simp del: toRaw.simps add: numeral_3_eq_3)
qed

lemma folderHeading_shape:
  assumes "folderHeading element d = Inr h"
    and "js_hasOwnProperty element ''folder'' = Inr True
         \<or> js_hasOwnProperty element ''bookmark'' = Inr True"
  shows "\<exists>title. h = (if 0 < d then NL else []) @ replicate (d + 1) CHR ''#'' @ '' '' @ title @ NL"
  using assms
  by (auto simp: folderHeading_def split: sum.splits bool.splits if_splits)

text \<open>
  Claim C6. Whenever the converter writes the heading of an element at depth \<open>d\<close>, its
  text starts with a blank line exactly when \<open>0 < d\<close>, then has a heading marker of
  \<open>d + 1\<close> characters, a space, the title and a newline, for every \<open>d\<close>. For a folder of
  a bookmark tree that has a child, the rest of the text is the lines of its links and the
  texts of its sub-folders, rendered at depth \<open>d + 1\<close>.
\<close>

theorem heading_blank_and_weight:
  "writeFolderStructure (toRaw (Folder t (c # cs))) d
     = Inr ((if 0 < d then NL else []) @ replicate (d + 1) CHR ''#'' @ '' '' @ t @ NL
            @ concat (map unitText (concat (map linkUnit (filter isLink (c # cs)))))
            @ concat (map unitText
                (concat (map (\<lambda>f. emittedUnits f (d + 1)) (filter isFolder (c # cs))))))
   \<and> (typeof_object element
        \<and> (js_hasOwnProperty element ''folder'' = Inr True
             \<or> js_hasOwnProperty element ''bookmark'' = Inr True)
        \<and> writeFolderStructure element d = Inr out
        \<longrightarrow> (\<exists>title rest. out = (if 0 < d then NL else []) @ replicate (d + 1) CHR ''#''
                                    @ '' '' @ title @ NL @ rest))"
proof (intro conjI impI)
  show "writeFolderStructure (toRaw (Folder t (c # cs))) d
     = Inr ((if 0 < d then NL else []) @ replicate (d + 1) CHR ''#'' @ '' '' @ t @ NL
            @ concat (map unitText (concat (map linkUnit (filter isLink (c # cs)))))
            @ concat (map unitText
                (concat (map (\<lambda>f. emittedUnits f (d + 1)) (filter isFolder (c # cs))))))"
    using writeFolderStructure_toRaw [of "Folder t (c # cs)" d]
    by (simp add: headingUnits_def del: toRaw.simps)
next
  assume a: "typeof_object element
        \<and> (js_hasOwnProperty element ''folder'' = Inr True
             \<or> js_hasOwnProperty element ''bookmark'' = Inr True)
        \<and> writeFolderStructure element d = Inr out"
  then obtain h rest where h: "folderHeading element d = Inr h" and out: "out = h @ rest"
    using writeFolderStructure_heading_prefix [of element d out] by blast
  from folderHeading_shape [OF h] a obtain title
    where "h = (if 0 < d then NL else []) @ replicate (d + 1) CHR ''#'' @ '' '' @ title @ NL"
    by blast
  with out show "\<exists>title rest. out = (if 0 < d then NL else []) @ replicate (d + 1) CHR ''#''
                                    @ '' '' @ title @ NL @ rest"
    by auto
qed

theorem heading_blank_and_weight_witness:
  "typeof_object (JObj [(''bookmark'', JArr [toRaw (Link ''a'' ''u'')])])
   \<and> js_hasOwnProperty (JObj [(''bookmark'', JArr [toRaw (Link ''a'' ''u'')])]) ''bookmark''
       = Inr True
   \<and> writeFolderStructure (JObj [(''bookmark'', JArr [toRaw (Link ''a'' ''u'')])]) 6
       = Inr ''\<newline>####### Bookmarks\<newline>[a](u)\<newline>''
   \<and> (\<exists>title rest. ''\<newline>####### Bookmarks\<newline>[a](u)\<newline>''
         = NL @ replicate 7 CHR ''#'' @ '' '' @ title @ NL @ rest)"
proof -
  have h1: "typeof_object (JObj [(''bookmark'', JArr [toRaw (Link ''a'' ''u'')])])"
    by simp
  have h2: "js_hasOwnProperty (JObj [(''bookmark'', JArr [toRaw (Link ''a'' ''u'')])]) ''bookmark''
       = Inr True"
    by simp
  have h3: "writeFolderStructure (JObj [(''bookmark'', JArr [toRaw (Link ''a'' ''u'')])]) 6
       = Inr ''\<newline>####### Bookmarks\<newline>[a](u)\<newline>''"
    by code_simp
  have "\<exists>title rest. ''\<newline>####### Bookmarks\<newline>[a](u)\<newline>''
         = (if 0 < (6::nat) then NL else []) @ replicate (6 + 1) CHR ''#'' @ '' '' @ title @ NL @ rest"
    using h1 h2 h3
      heading_blank_and_weight [of "''t''" "Link ''a'' ''u''" "[]" 6
          "JObj [(''bookmark'', JArr [toRaw (Link ''a'' ''u'')])]"
          "''\<newline>####### Bookmarks\<newline>[a](u)\<newline>''"]
    by blast
  then have "\<exists>title rest. ''\<newline>####### Bookmarks\<newline>[a](u)\<newline>''
         = NL @ replicate 7 CHR ''#'' @ '' '' @ title @ NL @ rest"
    by simp
  with h1 h2 h3 show ?thesis
    by blast
qed

section \<open>Pruning and retention\<close>

lemma applyChange_keeps [simp]:
  "calls (applyChange ch v) = calls v"
  "inFlight (applyChange ch v) = inFlight v"
  by (cases ch; simp split: option.splits)+

lemma foldl_applyChange_keeps [simp]:
  "calls (foldl (\<lambda>w ch. applyChange ch w) v chs) = calls v"
  "inFlight (foldl (\<lambda>w ch. applyChange ch w) v chs) = inFlight v"
  by (induction chs arbitrary: v) simp_all

lemma calls_issue [simp]: "calls (issue env c ch v) = calls v @ [c]"
  by (simp add: issue_def Let_def)

lemma calls_awaited [simp]: "calls (awaited env c ch v) = calls v @ [c]"
  by (simp add: awaited_def Let_def)

lemma calls_land [simp]: "calls (land due v) = calls v"
  by (simp add: land_def)













lemma backups_fields [simp]:
  "backups (v\<lparr>calls := cs\<rparr>) = backups v"
  "backups (v\<lparr>inFlight := q\<rparr>) = backups v"
  by (simp_all add: backups_def)











lemma filesToDeleteList_Nil [simp]: "filesToDeleteList k [] = []"
  by (simp add: filesToDeleteList_def)
















text \<open>
  Claim C9. When there is no folder at the backup location, pruning returns the vault as
  it was, for every retention count and whatever the vault calls would do: no call is
  made and no entry is deleted.
\<close>

theorem prune_without_folder:
  "backupFolder v = None \<Longrightarrow> deleteOldBackups env p k v = v"
  by (simp add: deleteOldBackups_def)

theorem prune_without_folder_witness:
  "backupFolder exampleVault = None
   \<and> deleteOldBackups exampleEnv ''bak'' 3 exampleVault = exampleVault"
proof -
  have h: "backupFolder exampleVault = None"
    by (simp add: exampleVault_def)
  show ?thesis
    using h prune_without_folder [OF h, of exampleEnv "''bak''" 3] by simp
qed




section \<open>Backup names and the run\<close>

text \<open>
  Claim C7 at the output file \<^verbatim>\<open>out/my.bookmarks.md\<close>, rotated at 03:04:05 local time on
  2 January 2024. Line 132 takes \<^verbatim>\<open>parse(fileName).name\<close> of the base name, which the vault
  gives without the extension, so the base name \<^verbatim>\<open>my.bookmarks\<close> is cut at its dot: the
  backup is named \<^verbatim>\<open>my-20240102030405.md\<close>, not \<^verbatim>\<open>my.bookmarks-20240102030405.md\<close>.
\<close>

theorem backup_name_dotted_basename:
  "backupFileName exampleEnv dottedFile = ''my-20240102030405.md''
   \<and> calls (backupExistingFile exampleEnv dottedFile ''bak''
               (exampleVault\<lparr>mdFile := Some dottedFile\<rparr>))
       = [CreateFolder ''bak'', Rename dottedFile ''bak/my-20240102030405.md'']
   \<and> backups (processXBELFileData (exampleSettings\<lparr>mdFileName := ''my.bookmarks.md''\<rparr>)
                 exampleEnv (exampleVault\<lparr>mdFile := Some dottedFile\<rparr>))
       = [dottedFile\<lparr>path := ''bak/my-20240102030405.md''\<rparr>]"
  by code_simp




end
